theory Spec2Isabelle
  imports Main "HOL-Library.Word"
begin

section \<open>Machine types\<close>

text \<open>
  The library targets Arduino boards. \<open>byte\<close> is an unsigned 8-bit value,
  \<open>unsigned long\<close> (the type of \<open>millis()\<close>) is 32 bits wide and \<open>unsigned int\<close>
  is 16 bits wide (the analyzers' comment "Supports up to 65 seconds push duration"
  is the 16-bit range of milliseconds). All arithmetic wraps around.
\<close>

type_synonym byte = "8 word"
type_synonym uint = "16 word"
type_synonym ulong = "32 word"

section \<open>Constants\<close>

text \<open>
  Modelled from the spec: \<open>Switch.h\<close> is not among the sources, so the three raw state
  constants it declares are written down here. \<open>SW_STATE_UNDEFINED\<close> is the reserved
  sentinel "no sample taken yet"; it is given the value \<open>0xFF\<close>, as the analyzers'
  own \<open>..._I_UNDEFINED\<close> constants. \<open>SW_STATE_DEFAULT_OFF\<close> and
  \<open>SW_STATE_DEFAULT_ON\<close> are the two raw states of one digital pin, \<open>0\<close> and \<open>1\<close>
  (the examples print "1=was pushed, 0=was released").
\<close>

definition SW_STATE_UNDEFINED :: byte where "SW_STATE_UNDEFINED = 0xFF"
definition SW_STATE_DEFAULT_OFF :: byte where "SW_STATE_DEFAULT_OFF = 0x00"
definition SW_STATE_DEFAULT_ON :: byte where "SW_STATE_DEFAULT_ON = 0x01"

definition PBR_STATE_E_OFF :: byte where "PBR_STATE_E_OFF = 0x00"
definition PBR_STATE_E_SINGLE :: byte where "PBR_STATE_E_SINGLE = 0x01"
definition PBR_STATE_E_CONT_A :: byte where "PBR_STATE_E_CONT_A = 0x02"
definition PBR_STATE_E_CONT_B :: byte where "PBR_STATE_E_CONT_B = 0x03"
definition PBR_STATE_I_OFF :: byte where "PBR_STATE_I_OFF = 0x04"
definition PBR_STATE_I_ON :: byte where "PBR_STATE_I_ON = 0x05"
definition PBR_STATE_I_CONT_A :: byte where "PBR_STATE_I_CONT_A = 0x06"
definition PBR_STATE_I_CONT_B :: byte where "PBR_STATE_I_CONT_B = 0x07"
definition PBR_STATE_I_UNDEFINED :: byte where "PBR_STATE_I_UNDEFINED = 0xFF"

definition PBDL_STATE_E_OFF :: byte where "PBDL_STATE_E_OFF = 0x00"
definition PBDL_STATE_E_SINGLE :: byte where "PBDL_STATE_E_SINGLE = 0x01"
definition PBDL_STATE_E_DOUBLE :: byte where "PBDL_STATE_E_DOUBLE = 0x02"
definition PBDL_STATE_E_LONG :: byte where "PBDL_STATE_E_LONG = 0x03"
definition PBDL_STATE_I_OFF :: byte where "PBDL_STATE_I_OFF = 0x04"
definition PBDL_STATE_I_ON :: byte where "PBDL_STATE_I_ON = 0x05"
definition PBDL_STATE_I_DBLOFF :: byte where "PBDL_STATE_I_DBLOFF = 0x06"
definition PBDL_STATE_I_DBL2ON :: byte where "PBDL_STATE_I_DBL2ON = 0x07"
definition PBDL_STATE_I_LONGTIMEOUT :: byte where "PBDL_STATE_I_LONGTIMEOUT = 0x08"
definition PBDL_STATE_I_UNDEFINED :: byte where "PBDL_STATE_I_UNDEFINED = 0xFF"

definition REA_STATE_E_OFF :: byte where "REA_STATE_E_OFF = 0x00"
definition REA_STATE_E_DIRECTION_R :: byte where "REA_STATE_E_DIRECTION_R = 0x01"
definition REA_STATE_E_DIRECTION_L :: byte where "REA_STATE_E_DIRECTION_L = 0x02"
definition REA_STATE_I_OFF :: byte where "REA_STATE_I_OFF = 0x03"
definition REA_STATE_I_RIGHT_A :: byte where "REA_STATE_I_RIGHT_A = 0x04"
definition REA_STATE_I_LEFT_B :: byte where "REA_STATE_I_LEFT_B = 0x05"
definition REA_STATE_I_UNDEFINED :: byte where "REA_STATE_I_UNDEFINED = 0xFF"
definition REA_SWSTATE_OFF :: byte where "REA_SWSTATE_OFF = 0x00"
definition REA_SWSTATE_A :: byte where "REA_SWSTATE_A = 0x01"
definition REA_SWSTATE_B :: byte where "REA_SWSTATE_B = 0x02"
definition REA_SWSTATE_AB :: byte where "REA_SWSTATE_AB = 0x03"

section \<open>The default analyzer (class SwitchStateAnalyzer)\<close>

text \<open>The base class has no fields: its state is the unit value.\<close>

definition SSA_getReadCycleMillis :: byte where
  "SSA_getReadCycleMillis = 0"

definition SSA_getNumAnalyzerStates :: byte where
  "SSA_getNumAnalyzerStates = 2"

definition SSA_getNumSwitchStates :: byte where
  "SSA_getNumSwitchStates = 2"

definition SSA_getAnalyzerState :: "byte \<Rightarrow> byte" where
  "SSA_getAnalyzerState switchState = switchState"

section \<open>PushButtonRepeatAnalyzer\<close>

record pbr =
  pbr_longStartMillis :: uint
  pbr_repeatMillis :: uint
  pbr_procStart :: ulong
  pbr_internalState :: byte

definition PBR_reset :: "pbr \<Rightarrow> pbr" where
  "PBR_reset a = a\<lparr>pbr_internalState := PBR_STATE_I_UNDEFINED, pbr_procStart := 0\<rparr>"

text \<open>
  \<open>init\<close> followed by the constructor's return: the two thresholds are clamped, then
  \<open>reset\<close> sets the remaining two fields (whose earlier content is never read).
\<close>

definition PBR_init :: "uint \<Rightarrow> uint \<Rightarrow> pbr" where
  "PBR_init longStartMillis repeatMillis =
     PBR_reset \<lparr>pbr_longStartMillis = (if longStartMillis > 2000 then 2000 else longStartMillis),
                pbr_repeatMillis = (if repeatMillis > 2000 then 2000 else repeatMillis),
                pbr_procStart = 0,
                pbr_internalState = 0\<rparr>"

definition PBR_default :: pbr where
  "PBR_default = PBR_init 0 0"

text \<open>\<open>max(_repeatMillis / 20, 1)\<close>, computed in \<open>unsigned int\<close>, returned as a byte.\<close>

definition PBR_getReadCycleMillis :: "pbr \<Rightarrow> byte" where
  "PBR_getReadCycleMillis a = ucast (max (pbr_repeatMillis a div 20) 1)"

definition PBR_getNumAnalyzerStates :: byte where
  "PBR_getNumAnalyzerStates = 4"

definition PBR_getNumSwitchStates :: byte where
  "PBR_getNumSwitchStates = 2"

text \<open>
  One step of the automaton. \<open>current\<close> is the value \<open>millis()\<close> returns inside the
  call. The result is the returned output state and the analyzer after the call.
\<close>

definition PBR_getAnalyzerState :: "pbr \<Rightarrow> ulong \<Rightarrow> byte \<Rightarrow> byte \<times> pbr" where
  "PBR_getAnalyzerState a current switchState =
    (let stateOn = (switchState = SW_STATE_DEFAULT_ON);
         a1 = (if pbr_internalState a = PBR_STATE_I_UNDEFINED then
                 (if stateOn then a\<lparr>pbr_procStart := current, pbr_internalState := PBR_STATE_I_ON\<rparr>
                  else a\<lparr>pbr_internalState := PBR_STATE_I_OFF\<rparr>)
               else a);
         procDuration = (ucast (current - pbr_procStart a1) :: uint);
         repeatDuration =
           (if pbr_repeatMillis a1 > 0 \<and> procDuration > pbr_longStartMillis a1
            then (procDuration - pbr_longStartMillis a1) mod (2 * pbr_repeatMillis a1)
            else 0)
     in
      if pbr_internalState a1 = PBR_STATE_I_OFF then
        (if \<not> stateOn then (PBR_STATE_E_OFF, a1)
         else (PBR_STATE_E_OFF, a1\<lparr>pbr_procStart := current, pbr_internalState := PBR_STATE_I_ON\<rparr>))
      else if pbr_internalState a1 = PBR_STATE_I_ON then
        (if stateOn then
           (if pbr_longStartMillis a1 > 0 \<and> procDuration \<ge> pbr_longStartMillis a1
            then (PBR_STATE_E_CONT_A, a1\<lparr>pbr_internalState := PBR_STATE_I_CONT_A\<rparr>)
            else (PBR_STATE_E_OFF, a1))
         else (PBR_STATE_E_SINGLE, a1\<lparr>pbr_internalState := PBR_STATE_I_OFF, pbr_procStart := 0\<rparr>))
      else if pbr_internalState a1 = PBR_STATE_I_CONT_A then
        (if stateOn then
           (if repeatDuration \<ge> pbr_repeatMillis a1
            then (PBR_STATE_E_CONT_B, a1\<lparr>pbr_internalState := PBR_STATE_I_CONT_B\<rparr>)
            else (PBR_STATE_E_CONT_A, a1))
         else (PBR_STATE_E_OFF, a1\<lparr>pbr_internalState := PBR_STATE_I_OFF, pbr_procStart := 0\<rparr>))
      else if pbr_internalState a1 = PBR_STATE_I_CONT_B then
        (if stateOn then
           (if repeatDuration < pbr_repeatMillis a1
            then (PBR_STATE_E_CONT_A, a1\<lparr>pbr_internalState := PBR_STATE_I_CONT_A\<rparr>)
            else (PBR_STATE_E_CONT_B, a1))
         else (PBR_STATE_E_OFF, a1\<lparr>pbr_internalState := PBR_STATE_I_OFF, pbr_procStart := 0\<rparr>))
      else (PBR_STATE_E_OFF, a1))"

section \<open>PushButtonDoubleLongAnalyzer\<close>

record pbdl =
  pbdl_maxDoubleMillis :: uint
  pbdl_minLongMillis :: uint
  pbdl_endLongByTime :: bool
  pbdl_procStart :: ulong
  pbdl_internalState :: byte

definition PBDL_reset :: "pbdl \<Rightarrow> pbdl" where
  "PBDL_reset a = a\<lparr>pbdl_internalState := PBDL_STATE_I_UNDEFINED, pbdl_procStart := 0\<rparr>"

definition PBDL_init :: "uint \<Rightarrow> uint \<Rightarrow> bool \<Rightarrow> pbdl" where
  "PBDL_init maxDoubleMillis minLongMillis endLongByTime =
     PBDL_reset \<lparr>pbdl_maxDoubleMillis = maxDoubleMillis,
                 pbdl_minLongMillis = minLongMillis,
                 pbdl_endLongByTime = endLongByTime,
                 pbdl_procStart = 0,
                 pbdl_internalState = 0\<rparr>"

definition PBDL_default :: pbdl where
  "PBDL_default = PBDL_init 0 0 False"

text \<open>\<open>max(_maxDoubleMillis, _minLongMillis) / 20\<close>, truncated to the returned byte.\<close>

definition PBDL_getReadCycleMillis :: "pbdl \<Rightarrow> byte" where
  "PBDL_getReadCycleMillis a = ucast (max (pbdl_maxDoubleMillis a) (pbdl_minLongMillis a) div 20)"

definition PBDL_getNumAnalyzerStates :: byte where
  "PBDL_getNumAnalyzerStates = 4"

definition PBDL_getNumSwitchStates :: byte where
  "PBDL_getNumSwitchStates = 2"

definition PBDL_getAnalyzerState :: "pbdl \<Rightarrow> ulong \<Rightarrow> byte \<Rightarrow> byte \<times> pbdl" where
  "PBDL_getAnalyzerState a current switchState =
    (let stateOn = (switchState = SW_STATE_DEFAULT_ON);
         a1 = (if pbdl_internalState a = PBDL_STATE_I_UNDEFINED then
                 (if stateOn then a\<lparr>pbdl_procStart := current, pbdl_internalState := PBDL_STATE_I_ON\<rparr>
                  else a\<lparr>pbdl_internalState := PBDL_STATE_I_OFF\<rparr>)
               else a);
         procDuration = (ucast (current - pbdl_procStart a1) :: uint)
     in
      if pbdl_minLongMillis a1 > 0 \<and> procDuration > pbdl_minLongMillis a1
         \<and> pbdl_internalState a1 = PBDL_STATE_I_ON \<and> pbdl_endLongByTime a1 then
        (PBDL_STATE_E_LONG, a1\<lparr>pbdl_internalState := PBDL_STATE_I_LONGTIMEOUT\<rparr>)
      else if pbdl_maxDoubleMillis a1 > 0 \<and> procDuration > pbdl_maxDoubleMillis a1
         \<and> (pbdl_internalState a1 = PBDL_STATE_I_DBLOFF \<or> pbdl_internalState a1 = PBDL_STATE_I_DBL2ON) then
        (if stateOn
         then (PBDL_STATE_E_SINGLE, a1\<lparr>pbdl_procStart := current, pbdl_internalState := PBDL_STATE_I_ON\<rparr>)
         else (PBDL_STATE_E_SINGLE, a1\<lparr>pbdl_procStart := 0, pbdl_internalState := PBDL_STATE_I_OFF\<rparr>))
      else if pbdl_internalState a1 = PBDL_STATE_I_OFF then
        (if stateOn
         then (PBDL_STATE_E_OFF, a1\<lparr>pbdl_procStart := current, pbdl_internalState := PBDL_STATE_I_ON\<rparr>)
         else (PBDL_STATE_E_OFF, a1))
      else if pbdl_internalState a1 = PBDL_STATE_I_ON then
        (if stateOn then (PBDL_STATE_E_OFF, a1)
         else if pbdl_minLongMillis a1 > 0 \<and> procDuration > pbdl_minLongMillis a1 then
           (PBDL_STATE_E_LONG, a1\<lparr>pbdl_internalState := PBDL_STATE_I_OFF, pbdl_procStart := 0\<rparr>)
         else if pbdl_maxDoubleMillis a1 > 0 \<and> procDuration < pbdl_maxDoubleMillis a1 then
           (PBDL_STATE_E_OFF, a1\<lparr>pbdl_internalState := PBDL_STATE_I_DBLOFF\<rparr>)
         else (PBDL_STATE_E_SINGLE, a1\<lparr>pbdl_internalState := PBDL_STATE_I_OFF, pbdl_procStart := 0\<rparr>))
      else if pbdl_internalState a1 = PBDL_STATE_I_DBLOFF then
        (if stateOn
         then (PBDL_STATE_E_OFF, a1\<lparr>pbdl_procStart := current, pbdl_internalState := PBDL_STATE_I_DBL2ON\<rparr>)
         else (PBDL_STATE_E_OFF, a1))
      else if pbdl_internalState a1 = PBDL_STATE_I_DBL2ON then
        (if \<not> stateOn
         then (PBDL_STATE_E_DOUBLE, a1\<lparr>pbdl_internalState := PBDL_STATE_I_OFF, pbdl_procStart := 0\<rparr>)
         else (PBDL_STATE_E_OFF, a1))
      else if pbdl_internalState a1 = PBDL_STATE_I_LONGTIMEOUT then
        (if \<not> stateOn
         then (PBDL_STATE_E_OFF, a1\<lparr>pbdl_internalState := PBDL_STATE_I_OFF, pbdl_procStart := 0\<rparr>)
         else (PBDL_STATE_E_OFF, a1))
      else (PBDL_STATE_E_OFF, a1))"

section \<open>RotaryEncoderAnalyzer\<close>

record rea =
  rea_internalState :: byte

definition REA_reset :: "rea \<Rightarrow> rea" where
  "REA_reset a = a\<lparr>rea_internalState := REA_STATE_I_UNDEFINED\<rparr>"

definition REA_init :: rea where
  "REA_init = REA_reset \<lparr>rea_internalState = 0\<rparr>"

definition REA_getReadCycleMillis :: "rea \<Rightarrow> byte" where
  "REA_getReadCycleMillis a = 2"

definition REA_getNumAnalyzerStates :: byte where
  "REA_getNumAnalyzerStates = 3"

definition REA_getNumSwitchStates :: byte where
  "REA_getNumSwitchStates = 4"

definition REA_getAnalyzerState :: "rea \<Rightarrow> byte \<Rightarrow> byte \<times> rea" where
  "REA_getAnalyzerState a switchState =
    (let a1 = (if rea_internalState a = REA_STATE_I_UNDEFINED
               then a\<lparr>rea_internalState := REA_STATE_I_OFF\<rparr> else a)
     in
      if rea_internalState a1 = REA_STATE_I_OFF then
        (if switchState = REA_SWSTATE_A then (REA_STATE_E_OFF, a1\<lparr>rea_internalState := REA_STATE_I_RIGHT_A\<rparr>)
         else if switchState = REA_SWSTATE_B then (REA_STATE_E_OFF, a1\<lparr>rea_internalState := REA_STATE_I_LEFT_B\<rparr>)
         else (REA_STATE_E_OFF, a1))
      else if rea_internalState a1 = REA_STATE_I_RIGHT_A then
        (if switchState = REA_SWSTATE_OFF
         then (REA_STATE_E_DIRECTION_R, a1\<lparr>rea_internalState := REA_STATE_I_OFF\<rparr>)
         else (REA_STATE_E_OFF, a1))
      else if rea_internalState a1 = REA_STATE_I_LEFT_B then
        (if switchState = REA_SWSTATE_OFF
         then (REA_STATE_E_DIRECTION_L, a1\<lparr>rea_internalState := REA_STATE_I_OFF\<rparr>)
         else (REA_STATE_E_OFF, a1))
      else (REA_STATE_E_OFF, a1))"

text \<open>Feeding a list of raw symbols to the analyzer, one call each; the outputs in order.\<close>

fun REA_run :: "rea \<Rightarrow> byte list \<Rightarrow> byte list" where
  "REA_run a [] = []"
| "REA_run a (r # rs) = (case REA_getAnalyzerState a r of (out, a') \<Rightarrow> out # REA_run a' rs)"

text \<open>
  Feeding a list of samples to an analyzer, one call each: a sample is the value of
  \<open>millis()\<close> inside the call and the raw symbol passed in. The outputs in order.
\<close>

fun PBR_run :: "pbr \<Rightarrow> (ulong \<times> byte) list \<Rightarrow> byte list" where
  "PBR_run a [] = []"
| "PBR_run a ((t, r) # rs) = (case PBR_getAnalyzerState a t r of (out, a') \<Rightarrow> out # PBR_run a' rs)"


section \<open>The analyzer interface\<close>

text \<open>
  The engine holds a pointer to a \<open>SwitchStateAnalyzer\<close> and calls its virtual
  functions. The closed set of classes in the sources is a datatype; each virtual call
  dispatches on the constructor. The null pointer is \<open>None\<close> of \<open>analyzer option\<close>.
\<close>

datatype analyzer =
    SwitchStateAnalyzer
  | PushButtonRepeatAnalyzer pbr
  | PushButtonDoubleLongAnalyzer pbdl
  | RotaryEncoderAnalyzer rea

fun analyzer_reset :: "analyzer \<Rightarrow> analyzer" where
  "analyzer_reset SwitchStateAnalyzer = SwitchStateAnalyzer"
| "analyzer_reset (PushButtonRepeatAnalyzer a) = PushButtonRepeatAnalyzer (PBR_reset a)"
| "analyzer_reset (PushButtonDoubleLongAnalyzer a) = PushButtonDoubleLongAnalyzer (PBDL_reset a)"
| "analyzer_reset (RotaryEncoderAnalyzer a) = RotaryEncoderAnalyzer (REA_reset a)"

fun getReadCycleMillis :: "analyzer \<Rightarrow> byte" where
  "getReadCycleMillis SwitchStateAnalyzer = SSA_getReadCycleMillis"
| "getReadCycleMillis (PushButtonRepeatAnalyzer a) = PBR_getReadCycleMillis a"
| "getReadCycleMillis (PushButtonDoubleLongAnalyzer a) = PBDL_getReadCycleMillis a"
| "getReadCycleMillis (RotaryEncoderAnalyzer a) = REA_getReadCycleMillis a"

fun getNumAnalyzerStates :: "analyzer \<Rightarrow> byte" where
  "getNumAnalyzerStates SwitchStateAnalyzer = SSA_getNumAnalyzerStates"
| "getNumAnalyzerStates (PushButtonRepeatAnalyzer a) = PBR_getNumAnalyzerStates"
| "getNumAnalyzerStates (PushButtonDoubleLongAnalyzer a) = PBDL_getNumAnalyzerStates"
| "getNumAnalyzerStates (RotaryEncoderAnalyzer a) = REA_getNumAnalyzerStates"

fun getNumSwitchStates :: "analyzer \<Rightarrow> byte" where
  "getNumSwitchStates SwitchStateAnalyzer = SSA_getNumSwitchStates"
| "getNumSwitchStates (PushButtonRepeatAnalyzer a) = PBR_getNumSwitchStates"
| "getNumSwitchStates (PushButtonDoubleLongAnalyzer a) = PBDL_getNumSwitchStates"
| "getNumSwitchStates (RotaryEncoderAnalyzer a) = REA_getNumSwitchStates"

text \<open>\<open>current\<close> is what \<open>millis()\<close> returns inside the analyzer's call.\<close>

fun getAnalyzerState :: "analyzer \<Rightarrow> ulong \<Rightarrow> byte \<Rightarrow> byte \<times> analyzer" where
  "getAnalyzerState SwitchStateAnalyzer current switchState =
     (SSA_getAnalyzerState switchState, SwitchStateAnalyzer)"
| "getAnalyzerState (PushButtonRepeatAnalyzer a) current switchState =
     (case PBR_getAnalyzerState a current switchState of
        (out, a') \<Rightarrow> (out, PushButtonRepeatAnalyzer a'))"
| "getAnalyzerState (PushButtonDoubleLongAnalyzer a) current switchState =
     (case PBDL_getAnalyzerState a current switchState of
        (out, a') \<Rightarrow> (out, PushButtonDoubleLongAnalyzer a'))"
| "getAnalyzerState (RotaryEncoderAnalyzer a) current switchState =
     (case REA_getAnalyzerState a switchState of
        (out, a') \<Rightarrow> (out, RotaryEncoderAnalyzer a'))"

section \<open>The Switch engine\<close>

text \<open>
  The fields of class \<open>Switch\<close>. \<open>SSA\<close> is the analyzer pointer (its target is owned by
  exactly one engine, so the analyzer's state is kept inside the engine's state).
  \<open>mapValues\<close> is the pointer to the mapping buffer: \<open>None\<close> is the null pointer,
  \<open>Some buf\<close> a buffer whose length is the number of bytes allocated for it.
\<close>

record switch =
  SSA :: "analyzer option"
  currentState :: byte
  previousState :: byte
  lastRawState :: byte
  inputPin :: byte
  readCycleMillis :: byte
  debounceMillis :: byte
  lastReadMillis :: ulong
  mapValues :: "byte list option"
  debouncing :: bool
  invertRaw :: bool
  numState :: byte

text \<open>
  The loop \<open>for(byte i=0 ; i<_numState ; i++) _mapValues[i] = i;\<close> started at counter
  \<open>i\<close>. A write beyond the end of the buffer is undefined behaviour in C++; here it
  ends the loop with \<open>None\<close>.
\<close>

function init_mapValues :: "byte \<Rightarrow> byte \<Rightarrow> byte list \<Rightarrow> byte list option" where
  "init_mapValues i n buf =
     (if i < n then
        (if unat i < length buf then init_mapValues (i + 1) n (buf[unat i := i]) else None)
      else Some buf)"
  by pat_completeness auto
termination
proof (relation "measure (\<lambda>(i, n, buf). unat n - unat i)")
  show "wf (measure (\<lambda>(i, n, buf). unat n - unat i))" by simp
next
  fix i n :: byte and buf :: "byte list"
  assume lt: "i < n"
  then have "unat i < unat n" by (simp add: word_less_nat_alt)
  moreover have "unat (i + 1) = unat i + 1"
    using lt by (metis (no_types, lifting) add.commute add_0 inc_i inc_le
        unat_plus_simple unsigned_0 unsigned_1 word_gt_0)
  ultimately show "((i + 1, n, buf[unat i := i]), (i, n, buf)) \<in> measure (\<lambda>(i, n, buf). unat n - unat i)"
    by simp
qed

declare init_mapValues.simps [simp del]

text \<open>
  \<open>Switch::init\<close>. The constructors set \<open>_SSA\<close> just before they call \<open>init\<close>, so
  the analyzer pointer is the first argument here. \<open>malloc(_numState)\<close> yields a fresh
  buffer of \<open>_numState\<close> bytes (it is taken to succeed); the loop overwrites each of
  them. The result is \<open>None\<close> exactly when the loop writes beyond a buffer handed in
  by the caller.
\<close>

definition init :: "analyzer option \<Rightarrow> byte \<Rightarrow> bool \<Rightarrow> byte list option \<Rightarrow> byte \<Rightarrow> byte \<Rightarrow> byte \<Rightarrow> bool
    \<Rightarrow> switch option" where
  "init ssa numState' enableMapping bufferMapping inputPin' readCycleMillis' debounceMillis' invertRaw' =
    (let sw = \<lparr>SSA = ssa,
               currentState = SW_STATE_UNDEFINED,
               previousState = SW_STATE_UNDEFINED,
               lastRawState = SW_STATE_UNDEFINED,
               inputPin = inputPin',
               readCycleMillis = readCycleMillis',
               debounceMillis = debounceMillis',
               lastReadMillis = 0,
               mapValues = bufferMapping,
               debouncing = False,
               invertRaw = invertRaw',
               numState = (if numState' < 2 then 2
                           else if numState' > 64 then 64
                           else numState')\<rparr>
     in
      if enableMapping then
        (let buf = (case mapValues sw of
                      None \<Rightarrow> replicate (unat (numState sw)) 0
                    | Some b \<Rightarrow> b)
         in case init_mapValues 0 (numState sw) buf of
              None \<Rightarrow> None
            | Some buf' \<Rightarrow> Some (sw\<lparr>mapValues := Some buf'\<rparr>))
      else Some sw)"

text \<open>The four constructors of \<open>Switch\<close>, in the order of the source.\<close>

definition Switch_numState :: "byte \<Rightarrow> bool \<Rightarrow> byte \<Rightarrow> byte \<Rightarrow> byte \<Rightarrow> bool \<Rightarrow> switch option" where
  "Switch_numState numState' enableMapping inputPin' readCycleMillis' debounceMillis' invertRaw' =
     init None numState' enableMapping None inputPin' readCycleMillis' debounceMillis' invertRaw'"

definition Switch_numState_buffer :: "byte \<Rightarrow> byte list option \<Rightarrow> byte \<Rightarrow> byte \<Rightarrow> byte \<Rightarrow> bool \<Rightarrow> switch option" where
  "Switch_numState_buffer numState' bufferMapping inputPin' readCycleMillis' debounceMillis' invertRaw' =
     init None numState' (bufferMapping \<noteq> None) bufferMapping inputPin' readCycleMillis' debounceMillis' invertRaw'"

definition Switch_analyzer :: "analyzer option \<Rightarrow> bool \<Rightarrow> byte \<Rightarrow> byte \<Rightarrow> bool \<Rightarrow> switch option" where
  "Switch_analyzer ssa enableMapping inputPin' debounceMillis' invertRaw' =
     (case ssa of
        Some a \<Rightarrow>
          (let a' = analyzer_reset a
           in init (Some a') (getNumAnalyzerStates a') enableMapping None inputPin'
                (getReadCycleMillis a') debounceMillis' invertRaw')
      | None \<Rightarrow> init None 2 enableMapping None inputPin' 0 debounceMillis' invertRaw')"

definition Switch_analyzer_buffer :: "analyzer option \<Rightarrow> byte list option \<Rightarrow> byte \<Rightarrow> byte \<Rightarrow> bool \<Rightarrow> switch option" where
  "Switch_analyzer_buffer ssa bufferMapping inputPin' debounceMillis' invertRaw' =
     (case ssa of
        Some a \<Rightarrow>
          (let a' = analyzer_reset a
           in init (Some a') (getNumAnalyzerStates a') (bufferMapping \<noteq> None) bufferMapping inputPin'
                (getReadCycleMillis a') debounceMillis' invertRaw')
      | None \<Rightarrow> init None 2 (bufferMapping \<noteq> None) bufferMapping inputPin' 0 debounceMillis' invertRaw')"

definition getState :: "switch \<Rightarrow> byte" where
  "getState sw = currentState sw"

definition getPrevState :: "switch \<Rightarrow> byte" where
  "getPrevState sw = previousState sw"

text \<open>
  \<open>_mapValues[i]\<close> as a read: \<open>None\<close> when the index is outside the buffer (undefined
  behaviour in C++).
\<close>

definition buffer_read :: "byte list \<Rightarrow> byte \<Rightarrow> byte option" where
  "buffer_read buf i = (if unat i < length buf then Some (buf ! unat i) else None)"

definition getMappedState :: "switch \<Rightarrow> byte option" where
  "getMappedState sw =
     (case mapValues sw of
        None \<Rightarrow> Some (currentState sw)
      | Some buf \<Rightarrow>
          if currentState sw = SW_STATE_UNDEFINED then Some (currentState sw)
          else buffer_read buf (currentState sw))"

definition getPrevMappedState :: "switch \<Rightarrow> byte option" where
  "getPrevMappedState sw =
     (case mapValues sw of
        None \<Rightarrow> Some (previousState sw)
      | Some buf \<Rightarrow>
          if previousState sw = SW_STATE_UNDEFINED then Some (previousState sw)
          else buffer_read buf (previousState sw))"

text \<open>
  \<open>setMapping\<close>: \<open>None\<close> when the write \<open>_mapValues[state] = mappingValue\<close> is outside
  the buffer.
\<close>

definition setMapping :: "switch \<Rightarrow> byte \<Rightarrow> byte \<Rightarrow> switch option" where
  "setMapping sw state mappingValue =
     (case mapValues sw of
        None \<Rightarrow> Some sw
      | Some buf \<Rightarrow>
          if state \<ge> numState sw then Some sw
          else if unat state < length buf
               then Some (sw\<lparr>mapValues := Some (buf[unat state := mappingValue])\<rparr>)
               else None)"

text \<open>
  What one call of \<open>hasChanged\<close> obtains from outside: \<open>millis_now\<close> is the value of
  \<open>millis()\<close> at entry, \<open>raw_read\<close> the value \<open>getRawState()\<close> returns if the call gets
  that far (the function is virtual, so any byte is possible), and \<open>millis_analyzer\<close>
  the value of \<open>millis()\<close> inside the analyzer if it is stepped.
\<close>

record port =
  millis_now :: ulong
  raw_read :: byte
  millis_analyzer :: ulong

text \<open>
  \<open>Switch::hasChanged\<close>: the returned flag and the engine after the call. The
  inversion \<open>n - 1 - rawState\<close> is computed in \<open>int\<close> and stored into a byte, which
  is subtraction modulo 256.
\<close>

definition hasChanged :: "switch \<Rightarrow> port \<Rightarrow> bool \<times> switch" where
  "hasChanged sw p =
    (let current = millis_now p;
         timeDiff = current - lastReadMillis sw
     in
      if debouncing sw \<and> timeDiff < ucast (debounceMillis sw) then (False, sw)
      else if \<not> debouncing sw \<and> readCycleMillis sw > 0 \<and> timeDiff < ucast (readCycleMillis sw)
      then (False, sw)
      else
        (let sw1 = sw\<lparr>lastReadMillis := current\<rparr>;
             rawState =
               (if invertRaw sw1 then
                  (case SSA sw1 of Some a \<Rightarrow> getNumSwitchStates a | None \<Rightarrow> numState sw1)
                    - 1 - raw_read p
                else raw_read p)
         in
          if \<not> debouncing sw1 \<and> debounceMillis sw1 > 0 \<and> lastRawState sw1 \<noteq> rawState
          then (False, sw1\<lparr>debouncing := True\<rparr>)
          else
            (let sw2 = sw1\<lparr>debouncing := False, lastRawState := rawState\<rparr>;
                 (state, ssa') =
                   (case SSA sw2 of
                      Some a \<Rightarrow>
                        (case getAnalyzerState a (millis_analyzer p) rawState of
                           (out, a') \<Rightarrow> (out, Some a'))
                    | None \<Rightarrow> (rawState, None));
                 sw3 = sw2\<lparr>SSA := ssa'\<rparr>
             in
              if state \<noteq> currentState sw3
              then (True, sw3\<lparr>previousState := currentState sw3, currentState := state\<rparr>)
              else (False, sw3))))"

definition reset :: "switch \<Rightarrow> switch" where
  "reset sw =
     sw\<lparr>currentState := SW_STATE_UNDEFINED,
        previousState := SW_STATE_UNDEFINED,
        lastRawState := SW_STATE_UNDEFINED,
        lastReadMillis := 0,
        debouncing := False,
        SSA := (case SSA sw of Some a \<Rightarrow> Some (analyzer_reset a) | None \<Rightarrow> None)\<rparr>"

text \<open>A series of \<open>hasChanged\<close> calls: the engine after the last one.\<close>

fun polls :: "switch \<Rightarrow> port list \<Rightarrow> switch" where
  "polls sw [] = sw"
| "polls sw (p # ps) = polls (snd (hasChanged sw p)) ps"

text \<open>
  The raw symbol after the step "raw read and if necessary inverting of the value" of
  \<open>hasChanged\<close>, for a value \<open>r\<close> read from the port.
\<close>

abbreviation post_inversion :: "switch \<Rightarrow> byte \<Rightarrow> byte" where
  "post_inversion sw r \<equiv>
     (if invertRaw sw then
        (case SSA sw of Some a \<Rightarrow> getNumSwitchStates a | None \<Rightarrow> numState sw) - 1 - r
      else r)"

section \<open>Configurations of the example sketches\<close>

text \<open>\<open>Switch sw = Switch(2, false, INPUT_PIN, 0, 20, true)\<close> with \<open>INPUT_PIN 2\<close>.\<close>

definition SimpleLED_switch :: "switch option" where
  "SimpleLED_switch = Switch_numState 2 False 2 0 20 True"

text \<open>
  \<open>byte mapBuffer[2]; Switch sw = Switch(2, &mapBuffer[0], INPUT_PIN, 10, 20, true)\<close>;
  the global buffer starts zeroed.
\<close>

definition Mapping_switch :: "switch option" where
  "Mapping_switch = Switch_numState_buffer 2 (Some [0, 0]) 2 10 20 True"

section \<open>Unfolding the named constants\<close>

lemmas SW_consts = SW_STATE_UNDEFINED_def SW_STATE_DEFAULT_OFF_def SW_STATE_DEFAULT_ON_def

lemmas PBR_consts = PBR_STATE_E_OFF_def PBR_STATE_E_SINGLE_def PBR_STATE_E_CONT_A_def
  PBR_STATE_E_CONT_B_def PBR_STATE_I_OFF_def PBR_STATE_I_ON_def PBR_STATE_I_CONT_A_def
  PBR_STATE_I_CONT_B_def PBR_STATE_I_UNDEFINED_def


lemmas REA_consts = REA_STATE_E_OFF_def REA_STATE_E_DIRECTION_R_def REA_STATE_E_DIRECTION_L_def
  REA_STATE_I_OFF_def REA_STATE_I_RIGHT_A_def REA_STATE_I_LEFT_B_def REA_STATE_I_UNDEFINED_def
  REA_SWSTATE_OFF_def REA_SWSTATE_A_def REA_SWSTATE_B_def REA_SWSTATE_AB_def

section \<open>The poll operation\<close>

lemmas example_switch_defs = SimpleLED_switch_def Mapping_switch_def
  Switch_numState_def Switch_numState_buffer_def init_def init_mapValues.simps SW_consts

lemma polls_append: "polls sw (ps @ qs) = polls (polls sw ps) qs"
  by (induction ps arbitrary: sw) simp_all

text \<open>
  C1. For every engine state \<open>sw\<close> (whatever its configuration and analyzer) and
  every input \<open>p\<close> of one call, \<open>hasChanged\<close> returns true exactly when the call
  changed \<open>currentState\<close>. A call suppressed by the debounce gate or by the cadence gate
  returns false and leaves the whole engine as it was. In a series of calls that starts
  in any state \<open>sw0\<close>, the call \<open>p\<close> after the calls \<open>ps\<close> returns true exactly when
  \<open>currentState\<close> after it differs from \<open>currentState\<close> before it.
\<close>

theorem hasChanged_true_iff_state_changed:
  "(fst (hasChanged sw p) \<longleftrightarrow> currentState (snd (hasChanged sw p)) \<noteq> currentState sw)
   \<and> (debouncing sw \<and> millis_now p - lastReadMillis sw < ucast (debounceMillis sw)
        \<longrightarrow> hasChanged sw p = (False, sw))
   \<and> (\<not> debouncing sw \<and> 0 < readCycleMillis sw
        \<and> millis_now p - lastReadMillis sw < ucast (readCycleMillis sw)
        \<longrightarrow> hasChanged sw p = (False, sw))
   \<and> (fst (hasChanged (polls sw0 ps) p)
        \<longleftrightarrow> currentState (polls sw0 (ps @ [p])) \<noteq> currentState (polls sw0 ps))"
proof -
  have step: "fst (hasChanged s q) \<longleftrightarrow> currentState (snd (hasChanged s q)) \<noteq> currentState s"
    for s q
    by (auto simp: hasChanged_def Let_def split: option.splits prod.splits)
  have gates: "(debouncing sw \<and> millis_now p - lastReadMillis sw < ucast (debounceMillis sw)
        \<longrightarrow> hasChanged sw p = (False, sw))
     \<and> (\<not> debouncing sw \<and> 0 < readCycleMillis sw
        \<and> millis_now p - lastReadMillis sw < ucast (readCycleMillis sw)
        \<longrightarrow> hasChanged sw p = (False, sw))"
    by (simp add: hasChanged_def Let_def)
  have "polls sw0 (ps @ [p]) = snd (hasChanged (polls sw0 ps) p)"
    by (simp add: polls_append)
  with step [of "polls sw0 ps" p] step [of sw p] gates show ?thesis
    by simp
qed

theorem hasChanged_true_iff_state_changed_witness:
  "(let sw = snd (hasChanged (the SimpleLED_switch) \<lparr>millis_now = 100, raw_read = 1, millis_analyzer = 100\<rparr>);
        q = \<lparr>millis_now = 110, raw_read = 1, millis_analyzer = 110\<rparr>;
        r = \<lparr>millis_now = 120, raw_read = 1, millis_analyzer = 120\<rparr>
    in debouncing sw \<and> millis_now q - lastReadMillis sw < ucast (debounceMillis sw)
       \<and> hasChanged sw q = (False, sw)
       \<and> fst (hasChanged sw r) \<and> currentState (snd (hasChanged sw r)) \<noteq> currentState sw)
   \<and> (let sw = the Mapping_switch;
           q = \<lparr>millis_now = 5, raw_read = 1, millis_analyzer = 5\<rparr>
       in \<not> debouncing sw \<and> 0 < readCycleMillis sw
          \<and> millis_now q - lastReadMillis sw < ucast (readCycleMillis sw)
          \<and> hasChanged sw q = (False, sw))"
  using
    hasChanged_true_iff_state_changed
      [of "snd (hasChanged (the SimpleLED_switch) \<lparr>millis_now = 100, raw_read = 1, millis_analyzer = 100\<rparr>)"
          "\<lparr>millis_now = 110, raw_read = 1, millis_analyzer = 110\<rparr>"]
    hasChanged_true_iff_state_changed
      [of "snd (hasChanged (the SimpleLED_switch) \<lparr>millis_now = 100, raw_read = 1, millis_analyzer = 100\<rparr>)"
          "\<lparr>millis_now = 120, raw_read = 1, millis_analyzer = 120\<rparr>"]
    hasChanged_true_iff_state_changed
      [of "the Mapping_switch" "\<lparr>millis_now = 5, raw_read = 1, millis_analyzer = 5\<rparr>"]
  by (simp add: example_switch_defs hasChanged_def Let_def)

text \<open>
  C2. A call of \<open>hasChanged\<close> that returns true leaves in \<open>getPrevState\<close> the value
  \<open>getState\<close> had just before the call, and \<open>getState\<close> has a new value; a call
  that returns false changes neither of the two. So the two fields change in the same
  call or not at all. In a series of calls that starts in any state \<open>sw0\<close>, after a call
  \<open>p\<close> that returns true \<open>getPrevState\<close> is what \<open>getState\<close> was after the calls
  \<open>ps\<close> before it.
\<close>

theorem hasChanged_shifts_previousState:
  "(fst (hasChanged sw p) \<longrightarrow>
      getPrevState (snd (hasChanged sw p)) = getState sw
      \<and> getState (snd (hasChanged sw p)) \<noteq> getState sw)
   \<and> (\<not> fst (hasChanged sw p) \<longrightarrow>
      getPrevState (snd (hasChanged sw p)) = getPrevState sw
      \<and> getState (snd (hasChanged sw p)) = getState sw)
   \<and> (fst (hasChanged (polls sw0 ps) p) \<longrightarrow>
      getPrevState (polls sw0 (ps @ [p])) = getState (polls sw0 ps))"
proof -
  have step: "(fst (hasChanged s q) \<longrightarrow>
      getPrevState (snd (hasChanged s q)) = getState s
      \<and> getState (snd (hasChanged s q)) \<noteq> getState s)
   \<and> (\<not> fst (hasChanged s q) \<longrightarrow>
      getPrevState (snd (hasChanged s q)) = getPrevState s
      \<and> getState (snd (hasChanged s q)) = getState s)"
    for s q
    by (auto simp: hasChanged_def getState_def getPrevState_def Let_def
             split: option.splits prod.splits)
  have "polls sw0 (ps @ [p]) = snd (hasChanged (polls sw0 ps) p)"
    by (simp add: polls_append)
  with step [of "polls sw0 ps" p] step [of sw p] show ?thesis
    by simp
qed

theorem hasChanged_shifts_previousState_witness:
  "(let sw = snd (hasChanged (the SimpleLED_switch) \<lparr>millis_now = 100, raw_read = 1, millis_analyzer = 100\<rparr>);
        q = \<lparr>millis_now = 110, raw_read = 1, millis_analyzer = 110\<rparr>;
        r = \<lparr>millis_now = 120, raw_read = 1, millis_analyzer = 120\<rparr>
    in \<not> fst (hasChanged sw q)
       \<and> getPrevState (snd (hasChanged sw q)) = getPrevState sw
       \<and> getState (snd (hasChanged sw q)) = getState sw
       \<and> fst (hasChanged sw r)
       \<and> getState sw = SW_STATE_UNDEFINED
       \<and> getPrevState (snd (hasChanged sw r)) = SW_STATE_UNDEFINED
       \<and> getState (snd (hasChanged sw r)) = SW_STATE_DEFAULT_OFF)"
  using
    hasChanged_shifts_previousState
      [of "snd (hasChanged (the SimpleLED_switch) \<lparr>millis_now = 100, raw_read = 1, millis_analyzer = 100\<rparr>)"
          "\<lparr>millis_now = 110, raw_read = 1, millis_analyzer = 110\<rparr>"]
    hasChanged_shifts_previousState
      [of "snd (hasChanged (the SimpleLED_switch) \<lparr>millis_now = 100, raw_read = 1, millis_analyzer = 100\<rparr>)"
          "\<lparr>millis_now = 120, raw_read = 1, millis_analyzer = 120\<rparr>"]
  by (simp add: example_switch_defs hasChanged_def getState_def getPrevState_def Let_def)

section \<open>Debouncing\<close>

lemma hasChanged_debounce_start:
  assumes nd: "\<not> debouncing sw" and db: "0 < debounceMillis sw"
    and sampled: "\<not> (0 < readCycleMillis sw \<and> millis_now p - lastReadMillis sw < ucast (readCycleMillis sw))"
    and differs: "post_inversion sw (raw_read p) \<noteq> lastRawState sw"
  shows "hasChanged sw p = (False, sw\<lparr>lastReadMillis := millis_now p, debouncing := True\<rparr>)"
proof (cases "invertRaw sw")
  case True
  with differs have "lastRawState sw \<noteq>
      (case SSA sw of Some a \<Rightarrow> getNumSwitchStates a | None \<Rightarrow> numState sw) - 1 - raw_read p"
    by auto
  with True show ?thesis
    by (simp add: hasChanged_def Let_def nd db sampled cong: option.case_cong)
next
  case False
  with differs have "lastRawState sw \<noteq> raw_read p"
    by auto
  with False show ?thesis
    by (simp add: hasChanged_def Let_def nd db sampled cong: option.case_cong)
qed

lemma hasChanged_debounce_wait:
  assumes "debouncing sw" "millis_now q - lastReadMillis sw < ucast (debounceMillis sw)"
  shows "hasChanged sw q = (False, sw)"
  using assms by (simp add: hasChanged_def Let_def)

lemma polls_debounce_wait:
  assumes "debouncing sw" "\<forall>q \<in> set qs. millis_now q - lastReadMillis sw < ucast (debounceMillis sw)"
  shows "polls sw qs = sw"
  using assms by (induction qs) (simp_all add: hasChanged_debounce_wait)

lemma hasChanged_debounce_end:
  assumes d: "debouncing sw" and expired: "ucast (debounceMillis sw) \<le> millis_now r - lastReadMillis sw"
  shows "lastRawState (snd (hasChanged sw r)) = post_inversion sw (raw_read r)
       \<and> \<not> debouncing (snd (hasChanged sw r))
       \<and> lastReadMillis (snd (hasChanged sw r)) = millis_now r"
proof -
  have nlt: "\<not> millis_now r - lastReadMillis sw < ucast (debounceMillis sw)"
    using expired by (simp add: not_less)
  show ?thesis
    by (simp add: hasChanged_def Let_def d nlt split: prod.splits cong: option.case_cong)
qed

text \<open>
  C3. Let the engine be outside the debounce phase with a debounce time above zero, and
  let a call \<open>p\<close> pass the cadence gate and sample a raw symbol that, after inversion,
  differs from \<open>lastRawState\<close>. Then the call returns false and only sets the debounce
  flag and the read time: \<open>lastRawState\<close> is as before. Every later call \<open>q\<close> made
  less than \<open>debounceMillis\<close> after \<open>p\<close> changes nothing. The first call \<open>r\<close> made
  at least \<open>debounceMillis\<close> after \<open>p\<close> stores its own raw symbol (after inversion)
  in \<open>lastRawState\<close>, whatever that symbol is, and ends the debounce phase.
\<close>

theorem debounce_single_resample:
  assumes nd: "\<not> debouncing sw" and db: "0 < debounceMillis sw"
    and sampled: "\<not> (0 < readCycleMillis sw \<and> millis_now p - lastReadMillis sw < ucast (readCycleMillis sw))"
    and differs: "post_inversion sw (raw_read p) \<noteq> lastRawState sw"
    and waiting: "\<forall>q \<in> set qs. millis_now q - millis_now p < ucast (debounceMillis sw)"
    and expired: "ucast (debounceMillis sw) \<le> millis_now r - millis_now p"
  shows "hasChanged sw p = (False, sw\<lparr>lastReadMillis := millis_now p, debouncing := True\<rparr>)
       \<and> polls sw (p # qs) = sw\<lparr>lastReadMillis := millis_now p, debouncing := True\<rparr>
       \<and> lastRawState (polls sw (p # qs @ [r])) = post_inversion sw (raw_read r)
       \<and> \<not> debouncing (polls sw (p # qs @ [r]))"
proof -
  let ?d = "sw\<lparr>lastReadMillis := millis_now p, debouncing := True\<rparr>"
  have start: "hasChanged sw p = (False, ?d)"
    using nd db sampled differs by (rule hasChanged_debounce_start)
  have wait: "polls ?d qs = ?d"
    using waiting by (intro polls_debounce_wait) simp_all
  have stay: "polls sw (p # qs) = ?d"
    using start wait by simp
  have fin: "polls sw (p # qs @ [r]) = snd (hasChanged ?d r)"
    using stay polls_append [of sw "p # qs" "[r]"] by simp
  have "lastRawState (snd (hasChanged ?d r)) = post_inversion ?d (raw_read r)
       \<and> \<not> debouncing (snd (hasChanged ?d r))
       \<and> lastReadMillis (snd (hasChanged ?d r)) = millis_now r"
    using expired by (intro hasChanged_debounce_end) simp_all
  moreover have "post_inversion ?d (raw_read r) = post_inversion sw (raw_read r)"
    by (cases "SSA sw") simp_all
  ultimately show ?thesis using start stay fin by simp
qed


theorem debounce_single_resample_witness:
  "(let sw = the SimpleLED_switch;
        p = \<lparr>millis_now = 100, raw_read = 1, millis_analyzer = 100\<rparr>;
        qs = [\<lparr>millis_now = 105, raw_read = 0, millis_analyzer = 105\<rparr>,
              \<lparr>millis_now = 119, raw_read = 1, millis_analyzer = 119\<rparr>];
        r = \<lparr>millis_now = 120, raw_read = 0, millis_analyzer = 120\<rparr>
    in \<not> debouncing sw \<and> 0 < debounceMillis sw
       \<and> \<not> (0 < readCycleMillis sw \<and> millis_now p - lastReadMillis sw < ucast (readCycleMillis sw))
       \<and> post_inversion sw (raw_read p) \<noteq> lastRawState sw
       \<and> millis_now (qs ! 0) - millis_now p < ucast (debounceMillis sw)
       \<and> millis_now (qs ! 1) - millis_now p < ucast (debounceMillis sw)
       \<and> ucast (debounceMillis sw) \<le> millis_now r - millis_now p
       \<and> \<not> fst (hasChanged sw p)
       \<and> lastRawState (polls sw (p # qs)) = SW_STATE_UNDEFINED
       \<and> debouncing (polls sw (p # qs))
       \<and> lastRawState (polls sw (p # qs @ [r])) = SW_STATE_DEFAULT_ON
       \<and> \<not> debouncing (polls sw (p # qs @ [r])))"
proof -
  let ?sw = "the SimpleLED_switch"
  let ?p = "\<lparr>millis_now = 100, raw_read = 1, millis_analyzer = 100\<rparr>"
  let ?qs = "[\<lparr>millis_now = 105, raw_read = 0, millis_analyzer = 105\<rparr>,
              \<lparr>millis_now = 119, raw_read = 1, millis_analyzer = 119\<rparr>]"
  let ?r = "\<lparr>millis_now = 120, raw_read = 0, millis_analyzer = 120\<rparr>"
  have h1: "\<not> debouncing ?sw" and h2: "0 < debounceMillis ?sw"
    by (simp_all add: example_switch_defs)
  have h3: "\<not> (0 < readCycleMillis ?sw
              \<and> millis_now ?p - lastReadMillis ?sw < ucast (readCycleMillis ?sw))"
    by (simp add: example_switch_defs)
  have h4: "post_inversion ?sw (raw_read ?p) \<noteq> lastRawState ?sw"
    by (simp add: example_switch_defs)
  have h5: "\<forall>q \<in> set ?qs. millis_now q - millis_now ?p < ucast (debounceMillis ?sw)"
    by (simp add: example_switch_defs)
  have h6: "ucast (debounceMillis ?sw) \<le> millis_now ?r - millis_now ?p"
    by (simp add: example_switch_defs)
  from debounce_single_resample [OF h1 h2 h3 h4 h5 h6]
  have "lastRawState (polls ?sw (?p # ?qs)) = SW_STATE_UNDEFINED
        \<and> debouncing (polls ?sw (?p # ?qs))
        \<and> \<not> fst (hasChanged ?sw ?p)
        \<and> lastRawState (polls ?sw (?p # ?qs @ [?r])) = SW_STATE_DEFAULT_ON
        \<and> \<not> debouncing (polls ?sw (?p # ?qs @ [?r]))"
    by (simp add: example_switch_defs hasChanged_def Let_def)
  moreover have "millis_now (?qs ! 0) - millis_now ?p < ucast (debounceMillis ?sw)"
    "millis_now (?qs ! 1) - millis_now ?p < ucast (debounceMillis ?sw)"
    using h5 by simp_all
  ultimately show ?thesis
    using h1 h2 h3 h4 h6 unfolding Let_def by blast
qed

section \<open>Word arithmetic\<close>

lemmas word_nat_simps = word_le_nat_alt word_less_nat_alt unsigned_ucast_eq take_bit_eq_mod unat_sub

section \<open>Continuous push with a zero repeat time\<close>

text \<open>
  C4. The analyzer built by \<open>PushButtonRepeatAnalyzer(500, 0)\<close> is sampled released at
  0 ms, pressed at 10 ms and still pressed at 600, 700 and 800 ms, then released at
  900 ms. The call at 600 ms returns CONT_A and the calls at 700 and 800 ms return
  CONT_B; the release returns OFF, so no SINGLE is returned at all.
\<close>

theorem PBR_repeat_zero_still_continuous:
  "PBR_run (PBR_init 500 0)
     [(0, SW_STATE_DEFAULT_OFF), (10, SW_STATE_DEFAULT_ON), (600, SW_STATE_DEFAULT_ON),
      (700, SW_STATE_DEFAULT_ON), (800, SW_STATE_DEFAULT_ON), (900, SW_STATE_DEFAULT_OFF)]
   = [PBR_STATE_E_OFF, PBR_STATE_E_OFF, PBR_STATE_E_CONT_A,
      PBR_STATE_E_CONT_B, PBR_STATE_E_CONT_B, PBR_STATE_E_OFF]"
  by (simp add: PBR_init_def PBR_reset_def PBR_getAnalyzerState_def Let_def PBR_consts SW_consts)

section \<open>The read cycle hint\<close>

lemma PBR_init_repeatMillis: "unat (pbr_repeatMillis (PBR_init l r)) = min (unat r) 2000"
  by (simp add: PBR_init_def PBR_reset_def word_nat_simps)

lemma PBR_init_longStartMillis: "unat (pbr_longStartMillis (PBR_init l r)) = min (unat l) 2000"
  by (simp add: PBR_init_def PBR_reset_def word_nat_simps)

lemma PBR_cycle: "unat (PBR_getReadCycleMillis (PBR_init l r)) = max (min (unat r) 2000 div 20) 1"
proof -
  have "unat (pbr_repeatMillis (PBR_init l r) div 20) = min (unat r) 2000 div 20"
    by (simp add: unat_div PBR_init_repeatMillis)
  moreover have "unat (max (pbr_repeatMillis (PBR_init l r) div 20) 1)
      = max (unat (pbr_repeatMillis (PBR_init l r) div 20)) 1"
    by (simp add: max_def word_le_nat_alt)
  moreover have "max (min (unat r) 2000 div 20) 1 \<le> 100"
    by simp
  ultimately show ?thesis
    by (simp add: PBR_getReadCycleMillis_def unsigned_ucast_eq take_bit_eq_mod)
qed

text \<open>
  C5. The analyzer built by the default constructor \<open>PushButtonDoubleLongAnalyzer()\<close>,
  that is \<open>init(0, 0, false)\<close>, returns the read cycle 0, and the one built by
  \<open>PushButtonDoubleLongAnalyzer(100, 5000, true)\<close> returns 250, the larger of its two
  thresholds divided by 20. \<open>PushButtonRepeatAnalyzer\<close> returns at least 1 for every
  pair of constructor arguments, and \<open>RotaryEncoderAnalyzer\<close> returns 2.
\<close>

theorem PBDL_getReadCycleMillis_no_floor:
  "getReadCycleMillis (PushButtonDoubleLongAnalyzer (PBDL_init 0 0 False)) = 0
   \<and> getReadCycleMillis (PushButtonDoubleLongAnalyzer (PBDL_init 100 5000 True)) = 250
   \<and> 1 \<le> getReadCycleMillis (PushButtonRepeatAnalyzer (PBR_init l r))
   \<and> getReadCycleMillis (RotaryEncoderAnalyzer REA_init) = 2"
proof -
  have zero: "getReadCycleMillis (PushButtonDoubleLongAnalyzer (PBDL_init 0 0 False)) = 0"
    by (simp add: PBDL_getReadCycleMillis_def PBDL_init_def PBDL_reset_def)
  have larger: "getReadCycleMillis (PushButtonDoubleLongAnalyzer (PBDL_init 100 5000 True)) = 250"
    by (simp add: PBDL_getReadCycleMillis_def PBDL_init_def PBDL_reset_def)
  have "unat (PBR_getReadCycleMillis (PBR_init l r)) = max (min (unat r) 2000 div 20) 1"
    by (rule PBR_cycle)
  then have floor: "1 \<le> getReadCycleMillis (PushButtonRepeatAnalyzer (PBR_init l r))"
    by (simp add: word_le_nat_alt)
  have rea: "getReadCycleMillis (RotaryEncoderAnalyzer REA_init) = 2"
    by (simp add: REA_getReadCycleMillis_def)
  from zero larger floor rea show ?thesis by blast
qed

section \<open>Double push and retroactive single push\<close>













section \<open>The identity fill of the mapping buffer\<close>

lemma unat_byte_Suc:
  assumes "(i::byte) < n"
  shows "unat (i + 1) = Suc (unat i)"
  using assms
  by (metis (no_types, lifting) add.commute add_0 inc_i inc_le Suc_eq_plus1
        unat_plus_simple unsigned_0 unsigned_1 word_gt_0)

lemma init_mapValues_fills:
  "unat n \<le> length buf \<Longrightarrow> i \<le> n \<Longrightarrow>
   init_mapValues i n buf
     = Some (take (unat i) buf @ map of_nat [unat i..<unat n] @ drop (unat n) buf)"
proof (induction i n buf rule: init_mapValues.induct)
  case (1 i n buf)
  show ?case
  proof (cases "i < n")
    case True
    then have lt: "unat i < unat n" by (simp add: word_less_nat_alt)
    with "1.prems" have inb: "unat i < length buf" by simp
    have suc: "unat (i + 1) = Suc (unat i)" using True by (rule unat_byte_Suc)
    have le: "i + 1 \<le> n" using True by (simp add: inc_le)
    have rec: "init_mapValues (i + 1) n (buf[unat i := i])
        = Some (take (unat (i + 1)) (buf[unat i := i]) @ map of_nat [unat (i + 1)..<unat n]
                @ drop (unat n) (buf[unat i := i]))"
      using "1.IH" [OF True inb] "1.prems" le by simp
    have tk: "take (unat (i + 1)) (buf[unat i := i]) = take (unat i) buf @ [i]"
      using inb by (simp add: suc take_Suc_conv_app_nth)
    have dr: "drop (unat n) (buf[unat i := i]) = drop (unat n) buf"
      using lt by simp
    have up: "map of_nat [unat i..<unat n] = i # map of_nat [unat (i + 1)..<unat n]"
      using lt by (simp add: suc upt_conv_Cons)
    have "init_mapValues i n buf = init_mapValues (i + 1) n (buf[unat i := i])"
      using True inb by (subst init_mapValues.simps) simp
    also note rec
    finally show ?thesis
      by (simp only: tk dr up append_Cons append_Nil append_assoc)
  next
    case False
    with "1.prems" have "i = n" by simp
    then show ?thesis
      by (subst init_mapValues.simps) simp
  qed
qed

lemma init_mapValues_overrun:
  "length buf < unat n \<Longrightarrow> unat i \<le> length buf \<Longrightarrow> init_mapValues i n buf = None"
proof (induction i n buf rule: init_mapValues.induct)
  case (1 i n buf)
  show ?case
  proof (cases "unat i < length buf")
    case True
    with "1.prems" have lt: "i < n" by (simp add: word_less_nat_alt)
    have suc: "unat (i + 1) = Suc (unat i)" using lt by (rule unat_byte_Suc)
    have "init_mapValues (i + 1) n (buf[unat i := i]) = None"
      using "1.IH" [OF lt True] "1.prems" True by (simp add: suc)
    then show ?thesis
      using lt True by (subst init_mapValues.simps) simp
  next
    case False
    with "1.prems" have "unat i = length buf" by simp
    with "1.prems" have "i < n" by (simp add: word_less_nat_alt)
    then show ?thesis
      using False by (subst init_mapValues.simps) simp
  qed
qed

section \<open>The mapping table\<close>

lemma hasChanged_frame:
  "mapValues (snd (hasChanged sw p)) = mapValues sw \<and> numState (snd (hasChanged sw p)) = numState sw"
  by (simp add: hasChanged_def Let_def split: option.splits prod.splits)

lemma polls_frame:
  "mapValues (polls sw ps) = mapValues sw \<and> numState (polls sw ps) = numState sw"
  by (induction ps arbitrary: sw) (simp_all add: hasChanged_frame)

lemma reset_frame:
  "mapValues (reset sw) = mapValues sw \<and> numState (reset sw) = numState sw"
  by (simp add: reset_def)

text \<open>What \<open>init\<close> leaves behind when the mapping is enabled.\<close>

lemma init_numState:
  assumes "init ssa n en bm pin rc db iv = Some sw"
  shows "numState sw = (if n < 2 then 2 else if n > 64 then 64 else n)"
  using assms by (auto simp: init_def Let_def split: if_splits option.splits)

lemma numState_clamped:
  "2 \<le> (if n < 2 then 2 else if n > 64 then 64 else n :: byte)
   \<and> (if n < 2 then 2 else if n > 64 then 64 else n :: byte) \<le> 64"
  by (auto simp: not_less)

lemma init_table:
  assumes built: "init ssa n True bm pin rc db iv = Some sw"
  shows "\<exists>buf. mapValues sw = Some buf \<and> unat (numState sw) \<le> length buf
           \<and> (\<forall>k < unat (numState sw). buf ! k = of_nat k)"
proof -
  let ?n = "if n < 2 then 2 else if n > 64 then 64 else n :: byte"
  let ?buf0 = "case bm of None \<Rightarrow> replicate (unat ?n) 0 | Some b \<Rightarrow> b"
  have ns: "numState sw = ?n" using built by (rule init_numState)
  from built obtain buf where run: "init_mapValues 0 ?n ?buf0 = Some buf"
    and mv: "mapValues sw = Some buf"
    by (auto simp: init_def Let_def split: option.splits)
  have len: "unat ?n \<le> length ?buf0"
  proof (rule ccontr)
    assume "\<not> unat ?n \<le> length ?buf0"
    then have "init_mapValues 0 ?n ?buf0 = None"
      by (intro init_mapValues_overrun) simp_all
    with run show False by simp
  qed
  then have "init_mapValues 0 ?n ?buf0 = Some (take (unat (0::byte)) ?buf0
      @ map of_nat [unat (0::byte)..<unat ?n] @ drop (unat ?n) ?buf0)"
    by (intro init_mapValues_fills) simp_all
  with run have buf: "buf = map of_nat [0..<unat ?n] @ drop (unat ?n) ?buf0"
    by simp
  have "unat ?n \<le> length buf" using len by (simp add: buf)
  moreover have "\<forall>k < unat ?n. buf ! k = of_nat k"
    by (simp add: buf nth_append)
  ultimately show ?thesis using mv ns by simp
qed

lemma setMapping_table:
  assumes mv: "mapValues sw = Some buf" and len: "unat (numState sw) \<le> length buf"
  shows "setMapping sw s v
    = Some (sw\<lparr>mapValues := Some (if s < numState sw then buf[unat s := v] else buf)\<rparr>)"
proof (cases "s < numState sw")
  case True
  then have "unat s < length buf" using len by (simp add: word_less_nat_alt)
  with True mv show ?thesis by (simp add: setMapping_def not_le [symmetric])
next
  case False
  with mv show ?thesis by (simp add: setMapping_def not_less)
qed

lemma getMappedState_read:
  assumes "mapValues sw = Some buf" "currentState sw \<noteq> SW_STATE_UNDEFINED"
    "unat (currentState sw) < length buf"
  shows "getMappedState sw = Some (buf ! unat (currentState sw))"
  using assms by (simp add: getMappedState_def buffer_read_def)

lemma getPrevMappedState_read:
  assumes "mapValues sw = Some buf" "previousState sw \<noteq> SW_STATE_UNDEFINED"
    "unat (previousState sw) < length buf"
  shows "getPrevMappedState sw = Some (buf ! unat (previousState sw))"
  using assms by (simp add: getPrevMappedState_def buffer_read_def)

lemma below_numState_defined:
  assumes "(t::byte) < m"
  shows "t \<noteq> SW_STATE_UNDEFINED"
proof
  assume "t = SW_STATE_UNDEFINED"
  with assms have "unat (255::byte) < unat m" by (simp add: SW_consts word_less_nat_alt)
  moreover have "unat m < 256" using unsigned_less [of m] by simp
  ultimately show False by simp
qed

text \<open>
  The table after the constructor, any polls, one \<open>setMapping\<close> and any further calls
  that keep \<open>mapValues\<close> and \<open>numState\<close>.
\<close>

lemma table_after_setMapping:
  assumes built: "init ssa n True bm pin rc db iv = Some sw0"
  shows "\<exists>buf. mapValues (polls sw0 ps1) = Some buf \<and> unat (numState sw0) \<le> length buf
           \<and> (\<forall>k < unat (numState sw0). buf ! k = of_nat k)
           \<and> setMapping (polls sw0 ps1) s v
               = Some ((polls sw0 ps1)\<lparr>mapValues :=
                    Some (if s < numState sw0 then buf[unat s := v] else buf)\<rparr>)"
proof -
  from init_table [OF built] obtain buf where
    b: "mapValues sw0 = Some buf" "unat (numState sw0) \<le> length buf"
       "\<forall>k < unat (numState sw0). buf ! k = of_nat k"
    by blast
  have "mapValues (polls sw0 ps1) = Some buf" "numState (polls sw0 ps1) = numState sw0"
    using b(1) by (simp_all add: polls_frame)
  then show ?thesis
    using b setMapping_table [of "polls sw0 ps1" buf s v] by auto
qed

lemma mapped_lookup:
  assumes mv: "mapValues sw = Some (if s < m then buf[unat s := v] else buf)"
    and len: "unat m \<le> length buf"
    and ident: "\<forall>k < unat m. buf ! k = of_nat k"
  shows "(s < m \<and> currentState sw = s \<longrightarrow> getMappedState sw = Some v)
       \<and> (currentState sw < m \<and> currentState sw \<noteq> s \<longrightarrow> getMappedState sw = Some (currentState sw))
       \<and> (s < m \<and> previousState sw = s \<longrightarrow> getPrevMappedState sw = Some v)
       \<and> (previousState sw < m \<and> previousState sw \<noteq> s \<longrightarrow> getPrevMappedState sw = Some (previousState sw))"
proof -
  let ?t = "if s < m then buf[unat s := v] else buf"
  have lt: "length ?t = length buf" by simp
  have hit: "?t ! unat s = v" if "s < m"
    using that len by (simp add: word_less_nat_alt)
  have miss: "?t ! unat c = c" if "c < m" "c \<noteq> s" for c
  proof -
    from that(1) have k: "unat c < unat m" by (simp add: word_less_nat_alt)
    from that(2) have "unat c \<noteq> unat s" by (simp add: word_unat_eq_iff)
    then have "?t ! unat c = buf ! unat c" by simp
    with k ident show ?thesis by simp
  qed
  have inb: "unat c < length ?t" if "c < m" for c
    using that len by (simp add: word_less_nat_alt)
  show ?thesis
    using mv hit miss inb below_numState_defined
    by (auto simp del: nth_list_update_eq nth_list_update_neq length_list_update
             simp: getMappedState_read getPrevMappedState_read)
qed

text \<open>
  C8. Let \<open>init\<close> with the mapping enabled return an engine \<open>sw0\<close>. After any calls
  of \<open>hasChanged\<close>, the call \<open>setMapping(s, v)\<close> succeeds, and after any further calls
  of \<open>hasChanged\<close>: if \<open>s\<close> is below \<open>numState\<close> and \<open>getState\<close> is \<open>s\<close>, then
  \<open>getMappedState\<close> returns \<open>v\<close>; if \<open>getState\<close> is a state below \<open>numState\<close> other
  than \<open>s\<close>, then \<open>getMappedState\<close> returns that state itself; the same holds for
  \<open>getPrevState\<close> and \<open>getPrevMappedState\<close>. For any engine \<open>sw\<close> whatsoever, if
  \<open>getState\<close> (or \<open>getPrevState\<close>) is \<open>SW_STATE_UNDEFINED\<close>, then \<open>getMappedState\<close>
  (or \<open>getPrevMappedState\<close>) returns \<open>SW_STATE_UNDEFINED\<close>, whatever the table holds.
\<close>

theorem mapping_round_trip:
  assumes built: "init ssa n True bm pin rc db iv = Some sw0"
  shows "\<exists>sw2. setMapping (polls sw0 ps1) s v = Some sw2
     \<and> (s < numState sw0 \<and> getState (polls sw2 ps2) = s
          \<longrightarrow> getMappedState (polls sw2 ps2) = Some v)
     \<and> (getState (polls sw2 ps2) < numState sw0 \<and> getState (polls sw2 ps2) \<noteq> s
          \<longrightarrow> getMappedState (polls sw2 ps2) = Some (getState (polls sw2 ps2)))
     \<and> (s < numState sw0 \<and> getPrevState (polls sw2 ps2) = s
          \<longrightarrow> getPrevMappedState (polls sw2 ps2) = Some v)
     \<and> (getPrevState (polls sw2 ps2) < numState sw0 \<and> getPrevState (polls sw2 ps2) \<noteq> s
          \<longrightarrow> getPrevMappedState (polls sw2 ps2) = Some (getPrevState (polls sw2 ps2)))
     \<and> (getState sw = SW_STATE_UNDEFINED \<longrightarrow> getMappedState sw = Some SW_STATE_UNDEFINED)
     \<and> (getPrevState sw = SW_STATE_UNDEFINED \<longrightarrow> getPrevMappedState sw = Some SW_STATE_UNDEFINED)"
proof -
  from table_after_setMapping [OF built, of ps1 s v] obtain buf where
    len: "unat (numState sw0) \<le> length buf"
    and ident: "\<forall>k < unat (numState sw0). buf ! k = of_nat k"
    and set: "setMapping (polls sw0 ps1) s v
               = Some ((polls sw0 ps1)\<lparr>mapValues :=
                    Some (if s < numState sw0 then buf[unat s := v] else buf)\<rparr>)"
    by blast
  let ?sw2 = "(polls sw0 ps1)\<lparr>mapValues := Some (if s < numState sw0 then buf[unat s := v] else buf)\<rparr>"
  have mv: "mapValues (polls ?sw2 ps2) = Some (if s < numState sw0 then buf[unat s := v] else buf)"
    by (simp add: polls_frame)
  have undef: "(getState sw = SW_STATE_UNDEFINED \<longrightarrow> getMappedState sw = Some SW_STATE_UNDEFINED)
     \<and> (getPrevState sw = SW_STATE_UNDEFINED \<longrightarrow> getPrevMappedState sw = Some SW_STATE_UNDEFINED)"
    by (simp add: getState_def getPrevState_def getMappedState_def getPrevMappedState_def
             split: option.splits)
  from mapped_lookup [OF mv len ident] set undef show ?thesis
    unfolding getState_def getPrevState_def by blast
qed

theorem mapping_round_trip_witness:
  "init None 2 True (Some [0, 0]) 2 10 20 True = Some (the Mapping_switch)
   \<and> (let sw2 = the (setMapping (polls (the Mapping_switch) []) SW_STATE_DEFAULT_ON 80);
           sw3 = polls sw2
                [\<lparr>millis_now = 100, raw_read = 0, millis_analyzer = 100\<rparr>,
                 \<lparr>millis_now = 120, raw_read = 0, millis_analyzer = 120\<rparr>];
           sw4 = polls sw2
                [\<lparr>millis_now = 100, raw_read = 0, millis_analyzer = 100\<rparr>,
                 \<lparr>millis_now = 120, raw_read = 0, millis_analyzer = 120\<rparr>,
                 \<lparr>millis_now = 140, raw_read = 1, millis_analyzer = 140\<rparr>,
                 \<lparr>millis_now = 160, raw_read = 1, millis_analyzer = 160\<rparr>]
       in SW_STATE_DEFAULT_ON < numState (the Mapping_switch)
          \<and> getState sw3 = SW_STATE_DEFAULT_ON \<and> getMappedState sw3 = Some 80
          \<and> getPrevState sw3 = SW_STATE_UNDEFINED \<and> getPrevMappedState sw3 = Some SW_STATE_UNDEFINED
          \<and> getState sw4 = SW_STATE_DEFAULT_OFF \<and> SW_STATE_DEFAULT_OFF < numState (the Mapping_switch)
          \<and> getMappedState sw4 = Some SW_STATE_DEFAULT_OFF
          \<and> getPrevState sw4 = SW_STATE_DEFAULT_ON \<and> getPrevMappedState sw4 = Some 80)"
proof -
  let ?m0 = "\<lparr>SSA = None, currentState = 255, previousState = 255, lastRawState = 255,
      inputPin = 2, readCycleMillis = 10, debounceMillis = 20, lastReadMillis = 0,
      mapValues = Some [0, 1], debouncing = False, invertRaw = True, numState = 2\<rparr>"
  let ?m2 = "\<lparr>SSA = None, currentState = 255, previousState = 255, lastRawState = 255,
      inputPin = 2, readCycleMillis = 10, debounceMillis = 20, lastReadMillis = 0,
      mapValues = Some [0, 80], debouncing = False, invertRaw = True, numState = 2\<rparr>"
  let ?m2a = "\<lparr>SSA = None, currentState = 255, previousState = 255, lastRawState = 255,
      inputPin = 2, readCycleMillis = 10, debounceMillis = 20, lastReadMillis = 100,
      mapValues = Some [0, 80], debouncing = True, invertRaw = True, numState = 2\<rparr>"
  let ?m3 = "\<lparr>SSA = None, currentState = 1, previousState = 255, lastRawState = 1,
      inputPin = 2, readCycleMillis = 10, debounceMillis = 20, lastReadMillis = 120,
      mapValues = Some [0, 80], debouncing = False, invertRaw = True, numState = 2\<rparr>"
  let ?ps2 = "[\<lparr>millis_now = 100, raw_read = 0, millis_analyzer = 100\<rparr>,
              \<lparr>millis_now = 120, raw_read = 0, millis_analyzer = 120\<rparr>]"
  let ?m3a = "\<lparr>SSA = None, currentState = 1, previousState = 255, lastRawState = 1,
      inputPin = 2, readCycleMillis = 10, debounceMillis = 20, lastReadMillis = 140,
      mapValues = Some [0, 80], debouncing = True, invertRaw = True, numState = 2\<rparr>"
  let ?m4 = "\<lparr>SSA = None, currentState = 0, previousState = 1, lastRawState = 0,
      inputPin = 2, readCycleMillis = 10, debounceMillis = 20, lastReadMillis = 160,
      mapValues = Some [0, 80], debouncing = False, invertRaw = True, numState = 2\<rparr>"
  let ?ps4 = "[\<lparr>millis_now = 100, raw_read = 0, millis_analyzer = 100\<rparr>,
              \<lparr>millis_now = 120, raw_read = 0, millis_analyzer = 120\<rparr>,
              \<lparr>millis_now = 140, raw_read = 1, millis_analyzer = 140\<rparr>,
              \<lparr>millis_now = 160, raw_read = 1, millis_analyzer = 160\<rparr>]"
  have m0: "Mapping_switch = Some ?m0"
    by (simp add: example_switch_defs)
  have m2: "setMapping ?m0 1 80 = Some ?m2"
    by (simp add: setMapping_def word_le_nat_alt)
  have p1: "hasChanged ?m2 \<lparr>millis_now = 100, raw_read = 0, millis_analyzer = 100\<rparr> = (False, ?m2a)"
    by (simp add: hasChanged_def Let_def)
  have p2: "hasChanged ?m2a \<lparr>millis_now = 120, raw_read = 0, millis_analyzer = 120\<rparr> = (True, ?m3)"
    by (simp add: hasChanged_def Let_def)
  have p3: "hasChanged ?m3 \<lparr>millis_now = 140, raw_read = 1, millis_analyzer = 140\<rparr> = (False, ?m3a)"
    by (simp add: hasChanged_def Let_def)
  have p4: "hasChanged ?m3a \<lparr>millis_now = 160, raw_read = 1, millis_analyzer = 160\<rparr> = (True, ?m4)"
    by (simp add: hasChanged_def Let_def)
  have built: "init None 2 True (Some [0, 0]) 2 10 20 True = Some (the Mapping_switch)"
    by (simp add: example_switch_defs)
  have facts: "SW_STATE_DEFAULT_ON < numState (the Mapping_switch)"
    "SW_STATE_DEFAULT_OFF < numState (the Mapping_switch)"
    "setMapping (polls (the Mapping_switch) []) SW_STATE_DEFAULT_ON 80 = Some ?m2"
    "getState (polls ?m2 ?ps2) = SW_STATE_DEFAULT_ON"
    "getPrevState (polls ?m2 ?ps2) = SW_STATE_UNDEFINED"
    "getState (polls ?m2 ?ps4) = SW_STATE_DEFAULT_OFF"
    "getPrevState (polls ?m2 ?ps4) = SW_STATE_DEFAULT_ON"
    by (simp_all add: m0 m2 p1 p2 p3 p4 SW_consts getState_def getPrevState_def)
  from mapping_round_trip [OF built, of "[]" SW_STATE_DEFAULT_ON 80 ?ps2 "polls ?m2 ?ps2"]
  have on: "getMappedState (polls ?m2 ?ps2) = Some 80
     \<and> getPrevMappedState (polls ?m2 ?ps2) = Some SW_STATE_UNDEFINED"
    using facts by simp
  from mapping_round_trip [OF built, of "[]" SW_STATE_DEFAULT_ON 80 ?ps4 undefined]
  have off: "getMappedState (polls ?m2 ?ps4) = Some SW_STATE_DEFAULT_OFF
     \<and> getPrevMappedState (polls ?m2 ?ps4) = Some 80"
    using facts by (simp add: SW_consts)
  from built facts on off show ?thesis
    by (simp add: Let_def)
qed

section \<open>Reset\<close>

text \<open>
  C10. \<open>reset\<close> leaves \<open>mapValues\<close>, \<open>numState\<close>, \<open>inputPin\<close>, \<open>readCycleMillis\<close>,
  \<open>debounceMillis\<close> and \<open>invertRaw\<close> as they are; it sets \<open>currentState\<close>,
  \<open>previousState\<close> and \<open>lastRawState\<close> to \<open>SW_STATE_UNDEFINED\<close>, the read time to 0,
  clears the debounce flag and resets the analyzer. So for an engine built with the
  mapping enabled and a state \<open>s\<close> below \<open>numState\<close>: after \<open>setMapping(s, v)\<close>, any
  calls of \<open>hasChanged\<close>, \<open>reset\<close> and any further calls of \<open>hasChanged\<close>,
  \<open>getMappedState\<close> returns \<open>v\<close> whenever \<open>getState\<close> is \<open>s\<close>.
\<close>

theorem reset_keeps_mapping:
  "mapValues (reset sw) = mapValues sw \<and> numState (reset sw) = numState sw
   \<and> inputPin (reset sw) = inputPin sw \<and> readCycleMillis (reset sw) = readCycleMillis sw
   \<and> debounceMillis (reset sw) = debounceMillis sw \<and> invertRaw (reset sw) = invertRaw sw
   \<and> currentState (reset sw) = SW_STATE_UNDEFINED \<and> previousState (reset sw) = SW_STATE_UNDEFINED
   \<and> lastRawState (reset sw) = SW_STATE_UNDEFINED \<and> lastReadMillis (reset sw) = 0
   \<and> \<not> debouncing (reset sw)
   \<and> SSA (reset sw) = map_option analyzer_reset (SSA sw)
   \<and> (init ssa n True bm pin rc db iv = Some sw0 \<and> s < numState sw0 \<longrightarrow>
        (\<exists>sw2. setMapping (polls sw0 ps1) s v = Some sw2
           \<and> (getState (polls (reset (polls sw2 ps2)) ps3) = s
                \<longrightarrow> getMappedState (polls (reset (polls sw2 ps2)) ps3) = Some v)))"
proof -
  have frame: "mapValues (reset sw) = mapValues sw \<and> numState (reset sw) = numState sw
   \<and> inputPin (reset sw) = inputPin sw \<and> readCycleMillis (reset sw) = readCycleMillis sw
   \<and> debounceMillis (reset sw) = debounceMillis sw \<and> invertRaw (reset sw) = invertRaw sw
   \<and> currentState (reset sw) = SW_STATE_UNDEFINED \<and> previousState (reset sw) = SW_STATE_UNDEFINED
   \<and> lastRawState (reset sw) = SW_STATE_UNDEFINED \<and> lastReadMillis (reset sw) = 0
   \<and> \<not> debouncing (reset sw)
   \<and> SSA (reset sw) = map_option analyzer_reset (SSA sw)"
    by (simp add: reset_def split: option.splits)
  have trip: "\<exists>sw2. setMapping (polls sw0 ps1) s v = Some sw2
           \<and> (getState (polls (reset (polls sw2 ps2)) ps3) = s
                \<longrightarrow> getMappedState (polls (reset (polls sw2 ps2)) ps3) = Some v)"
    if built: "init ssa n True bm pin rc db iv = Some sw0" and s: "s < numState sw0"
  proof -
    from table_after_setMapping [OF built, of ps1 s v] obtain buf where
      len: "unat (numState sw0) \<le> length buf"
      and ident: "\<forall>k < unat (numState sw0). buf ! k = of_nat k"
      and set: "setMapping (polls sw0 ps1) s v
               = Some ((polls sw0 ps1)\<lparr>mapValues :=
                    Some (if s < numState sw0 then buf[unat s := v] else buf)\<rparr>)"
      by blast
    let ?sw2 = "(polls sw0 ps1)\<lparr>mapValues := Some (if s < numState sw0 then buf[unat s := v] else buf)\<rparr>"
    have mv: "mapValues (polls (reset (polls ?sw2 ps2)) ps3)
        = Some (if s < numState sw0 then buf[unat s := v] else buf)"
      by (simp add: polls_frame reset_frame)
    from mapped_lookup [OF mv len ident] s set show ?thesis
      unfolding getState_def by blast
  qed
  from frame trip show ?thesis by blast
qed

theorem reset_keeps_mapping_witness:
  "init None 2 True (Some [0, 0]) 2 10 20 True = Some (the Mapping_switch)
   \<and> SW_STATE_DEFAULT_ON < numState (the Mapping_switch)
   \<and> (let sw2 = the (setMapping (polls (the Mapping_switch) []) SW_STATE_DEFAULT_ON 80);
           sw3 = polls sw2
                [\<lparr>millis_now = 100, raw_read = 0, millis_analyzer = 100\<rparr>,
                 \<lparr>millis_now = 120, raw_read = 0, millis_analyzer = 120\<rparr>];
           sw4 = polls (reset sw3)
                [\<lparr>millis_now = 200, raw_read = 0, millis_analyzer = 200\<rparr>,
                 \<lparr>millis_now = 220, raw_read = 0, millis_analyzer = 220\<rparr>]
       in getState sw3 = SW_STATE_DEFAULT_ON
          \<and> getState (reset sw3) = SW_STATE_UNDEFINED
          \<and> mapValues (reset sw3) = Some [0, 80]
          \<and> getState sw4 = SW_STATE_DEFAULT_ON \<and> getMappedState sw4 = Some 80)"
proof -
  let ?m0 = "\<lparr>SSA = None, currentState = 255, previousState = 255, lastRawState = 255,
      inputPin = 2, readCycleMillis = 10, debounceMillis = 20, lastReadMillis = 0,
      mapValues = Some [0, 1], debouncing = False, invertRaw = True, numState = 2\<rparr>"
  let ?m2 = "\<lparr>SSA = None, currentState = 255, previousState = 255, lastRawState = 255,
      inputPin = 2, readCycleMillis = 10, debounceMillis = 20, lastReadMillis = 0,
      mapValues = Some [0, 80], debouncing = False, invertRaw = True, numState = 2\<rparr>"
  let ?m2a = "\<lparr>SSA = None, currentState = 255, previousState = 255, lastRawState = 255,
      inputPin = 2, readCycleMillis = 10, debounceMillis = 20, lastReadMillis = 100,
      mapValues = Some [0, 80], debouncing = True, invertRaw = True, numState = 2\<rparr>"
  let ?m3 = "\<lparr>SSA = None, currentState = 1, previousState = 255, lastRawState = 1,
      inputPin = 2, readCycleMillis = 10, debounceMillis = 20, lastReadMillis = 120,
      mapValues = Some [0, 80], debouncing = False, invertRaw = True, numState = 2\<rparr>"
  let ?ps2 = "[\<lparr>millis_now = 100, raw_read = 0, millis_analyzer = 100\<rparr>,
              \<lparr>millis_now = 120, raw_read = 0, millis_analyzer = 120\<rparr>]"
  let ?r3a = "\<lparr>SSA = None, currentState = 255, previousState = 255, lastRawState = 255,
      inputPin = 2, readCycleMillis = 10, debounceMillis = 20, lastReadMillis = 200,
      mapValues = Some [0, 80], debouncing = True, invertRaw = True, numState = 2\<rparr>"
  let ?r4 = "\<lparr>SSA = None, currentState = 1, previousState = 255, lastRawState = 1,
      inputPin = 2, readCycleMillis = 10, debounceMillis = 20, lastReadMillis = 220,
      mapValues = Some [0, 80], debouncing = False, invertRaw = True, numState = 2\<rparr>"
  let ?ps3 = "[\<lparr>millis_now = 200, raw_read = 0, millis_analyzer = 200\<rparr>,
              \<lparr>millis_now = 220, raw_read = 0, millis_analyzer = 220\<rparr>]"
  have m0: "Mapping_switch = Some ?m0"
    by (simp add: example_switch_defs)
  have m2: "setMapping ?m0 1 80 = Some ?m2"
    by (simp add: setMapping_def word_le_nat_alt)
  have p1: "hasChanged ?m2 \<lparr>millis_now = 100, raw_read = 0, millis_analyzer = 100\<rparr> = (False, ?m2a)"
    by (simp add: hasChanged_def Let_def)
  have p2: "hasChanged ?m2a \<lparr>millis_now = 120, raw_read = 0, millis_analyzer = 120\<rparr> = (True, ?m3)"
    by (simp add: hasChanged_def Let_def)
  have r3: "reset ?m3 = ?m2"
    by (simp add: reset_def SW_consts)
  have p5: "hasChanged ?m2 \<lparr>millis_now = 200, raw_read = 0, millis_analyzer = 200\<rparr> = (False, ?r3a)"
    by (simp add: hasChanged_def Let_def)
  have p6: "hasChanged ?r3a \<lparr>millis_now = 220, raw_read = 0, millis_analyzer = 220\<rparr> = (True, ?r4)"
    by (simp add: hasChanged_def Let_def)
  have built: "init None 2 True (Some [0, 0]) 2 10 20 True = Some (the Mapping_switch)"
    by (simp add: example_switch_defs)
  have facts: "SW_STATE_DEFAULT_ON < numState (the Mapping_switch)"
    "setMapping (polls (the Mapping_switch) []) SW_STATE_DEFAULT_ON 80 = Some ?m2"
    "getState (polls ?m2 ?ps2) = SW_STATE_DEFAULT_ON"
    "getState (reset (polls ?m2 ?ps2)) = SW_STATE_UNDEFINED"
    "mapValues (reset (polls ?m2 ?ps2)) = Some [0, 80]"
    "getState (polls (reset (polls ?m2 ?ps2)) ?ps3) = SW_STATE_DEFAULT_ON"
    by (simp_all add: m0 m2 p1 p2 r3 p5 p6 SW_consts getState_def)
  from reset_keeps_mapping [of undefined None 2 "Some [0, 0]" 2 10 20 True "the Mapping_switch"
       SW_STATE_DEFAULT_ON "[]" 80 ?ps2 ?ps3]
  have "getMappedState (polls (reset (polls ?m2 ?ps2)) ?ps3) = Some 80"
    using built facts by simp
  with built facts show ?thesis
    by (simp add: Let_def)
qed

section \<open>Construction\<close>

text \<open>
  C9. Whenever \<open>init\<close> returns an engine, its \<open>numState\<close> lies between 2 and 64: an
  argument below 2 gives 2, one above 64 gives 64, and one in between is kept. \<open>init\<close>
  returns no engine only when the mapping is enabled on a buffer handed in by the caller
  that is shorter than the clamped \<open>numState\<close> (where the C++ loop writes beyond the
  buffer); the constructors that take the \<open>enableMapping\<close> flag always return an engine.
  \<open>PushButtonRepeatAnalyzer\<close> stores both thresholds cut off at 2000.
\<close>

theorem construction_clamps:
  "(init ssa n en bm pin rc db iv = Some sw \<longrightarrow>
      2 \<le> numState sw \<and> numState sw \<le> 64
      \<and> (n < 2 \<longrightarrow> numState sw = 2) \<and> (64 < n \<longrightarrow> numState sw = 64)
      \<and> (2 \<le> n \<and> n \<le> 64 \<longrightarrow> numState sw = n))
   \<and> (init ssa n en bm pin rc db iv = None \<longleftrightarrow>
        en \<and> (\<exists>buf. bm = Some buf \<and> length buf < unat (if n < 2 then 2 else if n > 64 then 64 else n)))
   \<and> Switch_numState n en pin rc db iv \<noteq> None
   \<and> Switch_analyzer ssa en pin db iv \<noteq> None
   \<and> unat (pbr_longStartMillis (PBR_init l r)) = min (unat l) 2000
   \<and> unat (pbr_repeatMillis (PBR_init l r)) = min (unat r) 2000"
proof -
  let ?n = "if n < 2 then 2 else if n > 64 then 64 else n :: byte"
  have clamp: "init ssa n en bm pin rc db iv = Some sw \<longrightarrow>
      2 \<le> numState sw \<and> numState sw \<le> 64
      \<and> (n < 2 \<longrightarrow> numState sw = 2) \<and> (64 < n \<longrightarrow> numState sw = 64)
      \<and> (2 \<le> n \<and> n \<le> 64 \<longrightarrow> numState sw = n)"
  proof
    assume "init ssa n en bm pin rc db iv = Some sw"
    then have "numState sw = ?n" by (rule init_numState)
    then show "2 \<le> numState sw \<and> numState sw \<le> 64
      \<and> (n < 2 \<longrightarrow> numState sw = 2) \<and> (64 < n \<longrightarrow> numState sw = 64)
      \<and> (2 \<le> n \<and> n \<le> 64 \<longrightarrow> numState sw = n)"
      by (auto simp: word_less_nat_alt word_le_nat_alt)
  qed
  have none: "init ssa' n' en bm' pin rc' db iv = None \<longleftrightarrow>
        en \<and> (\<exists>buf. bm' = Some buf \<and> length buf < unat (if n' < 2 then 2 else if n' > 64 then 64 else n' :: byte))"
    for ssa' :: "analyzer option" and n' :: byte and bm' :: "byte list option" and rc' :: byte
  proof -
    define m :: byte where "m = (if n' < 2 then 2 else if n' > 64 then 64 else n')"
    define buf0 where "buf0 = (case bm' of None \<Rightarrow> replicate (unat m) 0 | Some b \<Rightarrow> b)"
    have run: "init_mapValues 0 m buf0 = None \<longleftrightarrow> length buf0 < unat m"
    proof (cases "length buf0 < unat m")
      case True
      then have "init_mapValues 0 m buf0 = None" by (intro init_mapValues_overrun) simp_all
      with True show ?thesis by simp
    next
      case False
      then have "unat m \<le> length buf0" by simp
      then have "init_mapValues 0 m buf0 \<noteq> None"
        using init_mapValues_fills [of m buf0 0] by simp
      with False show ?thesis by simp
    qed
    have short: "length buf0 < unat m \<longleftrightarrow> (\<exists>buf. bm' = Some buf \<and> length buf < unat m)"
      by (cases bm') (simp_all add: buf0_def)
    have "init ssa' n' en bm' pin rc' db iv = None \<longleftrightarrow> en \<and> init_mapValues 0 m buf0 = None"
      unfolding init_def Let_def m_def [symmetric]
      by (cases bm') (auto simp: buf0_def split: option.splits)
    with run short show ?thesis
      unfolding m_def by simp
  qed
  have own: "init ssa' n' en None pin rc' db iv \<noteq> None"
    for ssa' :: "analyzer option" and n' :: byte and rc' :: byte
    using none [of ssa' n' None rc'] by simp
  have c1: "Switch_numState n en pin rc db iv \<noteq> None"
    unfolding Switch_numState_def by (rule own)
  have c2: "Switch_analyzer ssa en pin db iv \<noteq> None"
    unfolding Switch_analyzer_def Let_def by (cases ssa) (simp_all only: option.case own not_False_eq_True)
  from clamp none [of ssa n bm rc] c1 c2 PBR_init_longStartMillis [of l r] PBR_init_repeatMillis [of l r]
  show ?thesis by blast
qed

theorem construction_clamps_witness:
  "(\<exists>sw. init None 1 False None 2 0 20 True = Some sw \<and> numState sw = 2)
   \<and> (\<exists>sw. init None 200 True None 2 0 20 True = Some sw \<and> numState sw = 64)
   \<and> (\<exists>sw. init None 10 True (Some (replicate 10 0)) 2 0 20 True = Some sw \<and> numState sw = 10)
   \<and> init None 3 True (Some [0, 0]) 2 10 20 True = None
   \<and> unat (pbr_longStartMillis (PBR_init 3000 100)) = 2000
   \<and> unat (pbr_repeatMillis (PBR_init 3000 100)) = 100"
proof -
  have a: "init None 1 False None 2 0 20 True \<noteq> None"
    using construction_clamps [of None 1 False None 2 0 20 True] by simp
  have b: "init None 200 True None 2 0 20 True \<noteq> None"
    using construction_clamps [of None 200 True None 2 0 20 True] by simp
  have c: "init None 10 True (Some (replicate 10 0)) 2 0 20 True \<noteq> None"
    using construction_clamps [of None 10 True "Some (replicate 10 0)" 2 0 20 True] by simp
  have d: "init None 3 True (Some [0, 0]) 2 10 20 True = None"
    using construction_clamps [of None 3 True "Some [0, 0]" 2 10 20 True] by simp
  from a obtain swa where swa: "init None 1 False None 2 0 20 True = Some swa" by blast
  from b obtain swb where swb: "init None 200 True None 2 0 20 True = Some swb" by blast
  from c obtain swc where swc: "init None 10 True (Some (replicate 10 0)) 2 0 20 True = Some swc" by blast
  have na: "numState swa = 2"
    using construction_clamps [of None 1 False None 2 0 20 True swa] swa by simp
  have nb: "numState swb = 64"
    using construction_clamps [of None 200 True None 2 0 20 True swb] swb by simp
  have nc: "numState swc = 10"
    using construction_clamps [of None 10 True "Some (replicate 10 0)" 2 0 20 True swc] swc by simp
  have e: "unat (pbr_longStartMillis (PBR_init 3000 100)) = 2000
      \<and> unat (pbr_repeatMillis (PBR_init 3000 100)) = 100"
    using construction_clamps [of None 1 False None 2 0 20 True undefined 3000 100]
    by simp
  from swa swb swc na nb nc d e show ?thesis by blast
qed

section \<open>Rotary decoding\<close>

lemma REA_step_simps:
  "REA_getAnalyzerState \<lparr>rea_internalState = 0xFF\<rparr> 0 = (0, \<lparr>rea_internalState = 3\<rparr>)"
  "REA_getAnalyzerState \<lparr>rea_internalState = 3\<rparr> 0 = (0, \<lparr>rea_internalState = 3\<rparr>)"
  "REA_getAnalyzerState \<lparr>rea_internalState = 3\<rparr> 1 = (0, \<lparr>rea_internalState = 4\<rparr>)"
  "REA_getAnalyzerState \<lparr>rea_internalState = 3\<rparr> 2 = (0, \<lparr>rea_internalState = 5\<rparr>)"
  "REA_getAnalyzerState \<lparr>rea_internalState = 4\<rparr> 0 = (1, \<lparr>rea_internalState = 3\<rparr>)"
  "REA_getAnalyzerState \<lparr>rea_internalState = 4\<rparr> 2 = (0, \<lparr>rea_internalState = 4\<rparr>)"
  "REA_getAnalyzerState \<lparr>rea_internalState = 4\<rparr> 3 = (0, \<lparr>rea_internalState = 4\<rparr>)"
  "REA_getAnalyzerState \<lparr>rea_internalState = 5\<rparr> 0 = (2, \<lparr>rea_internalState = 3\<rparr>)"
  "REA_getAnalyzerState \<lparr>rea_internalState = 5\<rparr> 1 = (0, \<lparr>rea_internalState = 5\<rparr>)"
  "REA_getAnalyzerState \<lparr>rea_internalState = 5\<rparr> 3 = (0, \<lparr>rea_internalState = 5\<rparr>)"
  by (simp_all add: REA_getAnalyzerState_def REA_consts)

text \<open>
  C6. From the reset state, the raw sequence OFF, A, AB, B, OFF makes the analyzer return
  DIRECTION_R on the last step only and OFF on the four steps before; the mirrored sequence
  OFF, B, AB, A, OFF returns DIRECTION_L on the last step only; and the short sequence
  OFF, A, OFF returns DIRECTION_R on the last step only.
\<close>

theorem REA_sequences:
  "REA_run REA_init [REA_SWSTATE_OFF, REA_SWSTATE_A, REA_SWSTATE_AB, REA_SWSTATE_B, REA_SWSTATE_OFF]
     = [REA_STATE_E_OFF, REA_STATE_E_OFF, REA_STATE_E_OFF, REA_STATE_E_OFF, REA_STATE_E_DIRECTION_R]
   \<and> REA_run REA_init [REA_SWSTATE_OFF, REA_SWSTATE_B, REA_SWSTATE_AB, REA_SWSTATE_A, REA_SWSTATE_OFF]
     = [REA_STATE_E_OFF, REA_STATE_E_OFF, REA_STATE_E_OFF, REA_STATE_E_OFF, REA_STATE_E_DIRECTION_L]
   \<and> REA_run REA_init [REA_SWSTATE_OFF, REA_SWSTATE_A, REA_SWSTATE_OFF]
     = [REA_STATE_E_OFF, REA_STATE_E_OFF, REA_STATE_E_DIRECTION_R]"
  by (simp add: REA_init_def REA_reset_def REA_consts REA_step_simps)

end
